theory Spec2Isabelle
  imports Main
begin

section \<open>Bender simulator: the agent policy of \<^verbatim>\<open>main.go\<close>\<close>

text \<open>
  The Go program keeps two mutable objects, a \<^verbatim>\<open>BenderSimulator\<close> (the policy) and an
  \<^verbatim>\<open>FSM\<close> (the grid), and drives them through two callbacks. Every method with a
  pointer receiver becomes a function from the object to the updated object. A runtime
  panic is a value of type \<open>panic\<close>, and a returned \<^verbatim>\<open>error\<close> is a value of type
  \<open>error\<close>.

  Go's \<^verbatim>\<open>int\<close> is modelled by \<^typ>\<open>int\<close>, read as follows. The loop counter grows by
  one per recorded move, and every recorded move appends a string to \<^verbatim>\<open>path\<close>: memory is
  exhausted long before the counter reaches the machine bound. The selection index stays
  below the length of the ordering. A coordinate is a machine integer and a grid has
  fewer rows and columns than the greatest machine integer; then the bounds test of
  \<^verbatim>\<open>FSM.Event\<close> takes the same branch with and without wrap-around (a sum that wraps
  below zero is also past the last index when it does not wrap, and the other way
  round), and a destination that passes the test did not wrap.
\<close>

subsection \<open>Constants\<close>

definition SOUTH :: string where "SOUTH = ''SOUTH''"
definition NORTH :: string where "NORTH = ''NORTH''"
definition EAST :: string where "EAST = ''EAST''"
definition WEST :: string where "WEST = ''WEST''"
definition LOOP :: string where "LOOP = ''LOOP''"

lemmas direction_defs = SOUTH_def NORTH_def EAST_def WEST_def

datatype panic = IndexOutOfRange | TeleportsBadlySetup

subsection \<open>The policy object\<close>

record BenderSimulator =
  done_flag :: bool
  breaker :: bool
  boom :: bool
  resetDir :: bool
  invertPrio :: bool
  currDir :: int
  priorities :: "string list"
  pathModifier :: string
  path :: "string list"
  cache :: "string \<rightharpoonup> bool"
  loopCnt :: int
  maxNumStates :: int

text \<open>The field \<^verbatim>\<open>done\<close> of the Go struct is \<open>done_flag\<close> here (\<open>done\<close> is a keyword).\<close>

definition NewBenderSimulator :: "int \<Rightarrow> BenderSimulator" where
  "NewBenderSimulator stateNum =
     \<lparr> done_flag = False, breaker = False, boom = False, resetDir = False,
       invertPrio = False, currDir = 0,
       priorities = [SOUTH, EAST, NORTH, WEST],
       pathModifier = [], path = [], cache = Map.empty, loopCnt = 0,
       maxNumStates = stateNum \<rparr>"

definition Done :: "BenderSimulator \<Rightarrow> bool" where
  "Done b = done_flag b"

definition Loop :: "BenderSimulator \<Rightarrow> bool" where
  "Loop b = (if loopCnt b > maxNumStates b then True else False)"

text \<open>\<^verbatim>\<open>b.priorities[b.currDir]\<close> panics when the index is out of range.\<close>

definition Direction :: "BenderSimulator \<Rightarrow> panic + string" where
  "Direction b =
     (if pathModifier b \<noteq> [] then Inr (pathModifier b)
      else if 0 \<le> currDir b \<and> currDir b < int (length (priorities b))
        then Inr (priorities b ! nat (currDir b))
      else Inl IndexOutOfRange)"

definition ShowPath :: "BenderSimulator \<Rightarrow> string list" where
  "ShowPath b = (if Loop b then [LOOP] else path b)"

definition Breaker :: "BenderSimulator \<Rightarrow> bool" where
  "Breaker b = breaker b"

definition InvertBreaker :: "BenderSimulator \<Rightarrow> BenderSimulator" where
  "InvertBreaker b = (if breaker b then b\<lparr>breaker := False\<rparr> else b\<lparr>breaker := True\<rparr>)"

definition Reached :: "BenderSimulator \<Rightarrow> BenderSimulator" where
  "Reached b = b\<lparr>done_flag := True\<rparr>"

definition InvertPriorities :: "BenderSimulator \<Rightarrow> BenderSimulator" where
  "InvertPriorities b =
     (if invertPrio b then b\<lparr>invertPrio := False\<rparr> else b\<lparr>invertPrio := True\<rparr>)"

text \<open>
  The loop of \<^verbatim>\<open>turnoverPriorities\<close>:
  \<^verbatim>\<open>for i, j := 0, len(p)-1; i < len(p)/2; i, j = i+1, j-1 { p[i], p[j] = p[j], p[i] }\<close>.
  Both right-hand sides of the swap are read before either element is written.
\<close>

function turnover_loop :: "int \<Rightarrow> int \<Rightarrow> string list \<Rightarrow> string list" where
  "turnover_loop i j ps =
     (if i < int (length ps) div 2
      then turnover_loop (i + 1) (j - 1) (ps[nat i := ps ! nat j, nat j := ps ! nat i])
      else ps)"
  by pat_completeness auto
termination
  by (relation "measure (\<lambda>(i, j, ps). nat (int (length ps) div 2 - i))") auto

declare turnover_loop.simps [simp del]

definition turnoverPriorities :: "BenderSimulator \<Rightarrow> BenderSimulator" where
  "turnoverPriorities b =
     b\<lparr>priorities := turnover_loop 0 (int (length (priorities b)) - 1) (priorities b),
       invertPrio := False\<rparr>"

definition Remember :: "string \<Rightarrow> string \<Rightarrow> BenderSimulator \<Rightarrow> BenderSimulator" where
  "Remember dir state b =
     (let b1 = b\<lparr>path := path b @ [dir]\<rparr>
      in case cache b1 state of
           Some _ \<Rightarrow> b1\<lparr>loopCnt := loopCnt b1 + 1\<rparr>
         | None \<Rightarrow> b1\<lparr>cache := (cache b1)(state \<mapsto> True), loopCnt := 0\<rparr>)"

definition PathModifier :: "string \<Rightarrow> BenderSimulator \<Rightarrow> BenderSimulator" where
  "PathModifier dir b = b\<lparr>pathModifier := dir\<rparr>"

definition NextDirection :: "BenderSimulator \<Rightarrow> BenderSimulator" where
  "NextDirection b =
     (if resetDir b then b\<lparr>currDir := 0, resetDir := False\<rparr>
      else if currDir b + 1 \<ge> int (length (priorities b)) then b\<lparr>currDir := 0\<rparr>
      else b\<lparr>currDir := currDir b + 1\<rparr>)"

definition Boom :: "BenderSimulator \<Rightarrow> BenderSimulator" where
  "Boom b =
     (let b1 = b\<lparr>boom := True\<rparr>;
          b2 = b1\<lparr>pathModifier := []\<rparr>
      in if invertPrio b2 then (turnoverPriorities b2)\<lparr>resetDir := True\<rparr> else b2)"

definition Hurts :: "BenderSimulator \<Rightarrow> bool" where
  "Hurts b = boom b"

definition BackOnTrack :: "BenderSimulator \<Rightarrow> BenderSimulator" where
  "BackOnTrack b = b\<lparr>boom := False, resetDir := True\<rparr>"

section \<open>The grid state machine\<close>

record Pair =
  x :: int
  y :: int

text \<open>
  The struct \<^verbatim>\<open>FSM\<close> without its two callback fields: a callback takes the machine
  itself (through the event's back pointer), so the callbacks are parameters of
  \<open>FSM_Event\<close> instead of fields. A tile is a byte, \<^typ>\<open>char\<close> here.
\<close>

record FSM =
  states :: "char list list"
  curr :: Pair
  teleports :: "Pair list"

text \<open>
  The struct \<^verbatim>\<open>Event\<close>. Its pointer \<^verbatim>\<open>FSM\<close> and its \<^verbatim>\<open>Args\<close> (the policy object
  the driver passes) are the machine and the context that a callback receives next to
  the event and returns updated.
\<close>

record Event =
  Event :: string
  Dst :: char
  dstC :: Pair
  Cancelled :: bool

datatype error = UnknownState Pair

type_synonym 'c Callback = "Event \<Rightarrow> FSM \<Rightarrow> 'c \<Rightarrow> panic + (Event \<times> FSM \<times> 'c)"

text \<open>
  \<^verbatim>\<open>NewFSM\<close>: the inner loop over the characters of row \<open>i\<close> (\<open>j\<close> is the byte offset),
  then the outer loop over the rows. The \<^verbatim>\<open>break\<close> leaves the inner loop only. Go
  ranges over runes; a byte of a multi-byte rune is never \<^verbatim>\<open>'@'\<close> or \<^verbatim>\<open>'T'\<close>, so
  ranging over bytes finds the same tiles at the same offsets.
\<close>

fun NewFSM_row :: "int \<Rightarrow> int \<Rightarrow> char list \<Rightarrow> Pair \<times> Pair list \<Rightarrow> Pair \<times> Pair list" where
  "NewFSM_row i j [] (start, tp) = (start, tp)"
| "NewFSM_row i j (c # cs) (start, tp) =
     (if length tp = 2 \<and> start \<noteq> \<lparr>x = 0, y = 0\<rparr> then (start, tp)
      else if c = CHR ''@'' then NewFSM_row i (j + 1) cs (\<lparr>x = j, y = i\<rparr>, tp)
      else if c = CHR ''T'' then NewFSM_row i (j + 1) cs (start, tp @ [\<lparr>x = j, y = i\<rparr>])
      else NewFSM_row i (j + 1) cs (start, tp))"

fun NewFSM_rows :: "int \<Rightarrow> string list \<Rightarrow> char list list \<times> Pair \<times> Pair list
    \<Rightarrow> char list list \<times> Pair \<times> Pair list" where
  "NewFSM_rows i [] acc = acc"
| "NewFSM_rows i (s # plan) (sts, start, tp) =
     NewFSM_rows (i + 1) plan (sts @ [s], NewFSM_row i 0 s (start, tp))"

definition NewFSM :: "string list \<Rightarrow> FSM" where
  "NewFSM plan =
     (case NewFSM_rows 0 plan ([], \<lparr>x = 0, y = 0\<rparr>, []) of
        (sts, start, tp) \<Rightarrow> \<lparr>states = sts, curr = start, teleports = tp\<rparr>)"

text \<open>The \<^verbatim>\<open>switch\<close> at the head of \<^verbatim>\<open>FSM.Event\<close>; no case matches: the zero \<^verbatim>\<open>Pair\<close>.\<close>

definition Event_dst :: "FSM \<Rightarrow> string \<Rightarrow> Pair" where
  "Event_dst f evt =
     (if evt = SOUTH then \<lparr>x = x (curr f), y = y (curr f) + 1\<rparr>
      else if evt = NORTH then \<lparr>x = x (curr f), y = y (curr f) - 1\<rparr>
      else if evt = EAST then \<lparr>x = x (curr f) + 1, y = y (curr f)\<rparr>
      else if evt = WEST then \<lparr>x = x (curr f) - 1, y = y (curr f)\<rparr>
      else \<lparr>x = 0, y = 0\<rparr>)"

text \<open>
  The rest of \<^verbatim>\<open>FSM.Event\<close> from \<^verbatim>\<open>f.beforeCallback(e)\<close> on: the before callback, the
  test of the cancellation flag, the move and the enter callback. A panic of a callback
  ends the call.
\<close>

definition Event_callbacks ::
    "'c Callback \<Rightarrow> 'c Callback \<Rightarrow> Pair \<Rightarrow> Event \<Rightarrow> FSM \<Rightarrow> 'c \<Rightarrow> panic + (error option \<times> FSM \<times> 'c)" where
  "Event_callbacks beforeCB enterCB dst e f args =
     (case beforeCB e f args of
        Inl p \<Rightarrow> Inl p
      | Inr (e1, f1, args1) \<Rightarrow>
          if Cancelled e1 then Inr (None, f1, args1)
          else (case enterCB e1 (f1\<lparr>curr := dst\<rparr>) args1 of
                  Inl p \<Rightarrow> Inl p
                | Inr (e2, f2, args2) \<Rightarrow> Inr (None, f2, args2)))"

text \<open>
  The event that \<^verbatim>\<open>FSM.Event\<close> builds for an accepted destination:
  \<^verbatim>\<open>&Event{FSM: f, Event: evt, Dst: f.states[dst.y][dst.x], dstC: dst, Args: args}\<close>.
\<close>

definition Event_at :: "FSM \<Rightarrow> string \<Rightarrow> Pair \<Rightarrow> Event" where
  "Event_at f evt dst =
     \<lparr>Event = evt, Dst = states f ! nat (y dst) ! nat (x dst), dstC = dst, Cancelled = False\<rparr>"

text \<open>
  \<^verbatim>\<open>FSM.Event\<close>. The result is a panic, or the returned error (\<open>None\<close> is \<^verbatim>\<open>nil\<close>)
  with the machine and the context as the call leaves them. The bounds test is
  \<^verbatim>\<open>dst.x < 0 || dst.x >= len(f.states[0]) || dst.y < 0 || dst.y >= len(f.states)\<close>,
  evaluated left to right: \<^verbatim>\<open>f.states[0]\<close> panics on a grid with no row, and
  \<^verbatim>\<open>f.states[dst.y][dst.x]\<close> panics on a row shorter than the first.
\<close>

definition FSM_Event ::
    "'c Callback \<Rightarrow> 'c Callback \<Rightarrow> FSM \<Rightarrow> string \<Rightarrow> 'c \<Rightarrow> panic + (error option \<times> FSM \<times> 'c)" where
  "FSM_Event beforeCB enterCB f evt args =
     (let dst = Event_dst f evt
      in if x dst < 0 then Inr (Some (UnknownState dst), f, args)
         else if states f = [] then Inl IndexOutOfRange
         else if x dst \<ge> int (length (states f ! 0)) \<or> y dst < 0
                 \<or> y dst \<ge> int (length (states f))
           then Inr (Some (UnknownState dst), f, args)
         else if x dst \<ge> int (length (states f ! nat (y dst))) then Inl IndexOutOfRange
         else Event_callbacks beforeCB enterCB dst (Event_at f evt dst) f args)"

definition SetState :: "Pair \<Rightarrow> FSM \<Rightarrow> FSM" where
  "SetState p f = f\<lparr>curr := p\<rparr>"

definition TeleportDst :: "FSM \<Rightarrow> Pair \<Rightarrow> panic + Pair" where
  "TeleportDst f ps =
     (if length (teleports f) \<noteq> 2 then Inl TeleportsBadlySetup
      else if x (teleports f ! 0) = x ps \<and> y (teleports f ! 0) = y ps
        then Inr (teleports f ! 1)
      else Inr (teleports f ! 0))"

definition Cancel :: "Event \<Rightarrow> Event" where
  "Cancel e = e\<lparr>Cancelled := True\<rparr>"

text \<open>\<^verbatim>\<open>e.FSM.states[e.dstC.y][e.dstC.x] = dst\<close>: the tile of the grid changes, \<^verbatim>\<open>e.Dst\<close> does not.\<close>

definition ChangeDst :: "char \<Rightarrow> Event \<Rightarrow> FSM \<Rightarrow> panic + FSM" where
  "ChangeDst dst e f =
     (if 0 \<le> y (dstC e) \<and> y (dstC e) < int (length (states f))
         \<and> 0 \<le> x (dstC e) \<and> x (dstC e) < int (length (states f ! nat (y (dstC e))))
      then Inr (f\<lparr>states := (states f)[nat (y (dstC e)) :=
                   (states f ! nat (y (dstC e)))[nat (x (dstC e)) := dst]]\<rparr>)
      else Inl IndexOutOfRange)"

text \<open>
  \<^verbatim>\<open>fmt.Sprintf("%c%d%d", e.Dst, e.dstC.x, e.dstC.y)\<close>: \<^verbatim>\<open>%d\<close> prints decimal digits
  with a minus sign; \<^verbatim>\<open>%c\<close> prints the byte as a code point, in UTF-8 (two bytes from
  128 on).
\<close>

fun fmt_digits :: "nat \<Rightarrow> string" where
  "fmt_digits n =
     (if n < 10 then [char_of (48 + n)]
      else fmt_digits (n div 10) @ [char_of (48 + n mod 10)])"

declare fmt_digits.simps [simp del]

definition fmt_d :: "int \<Rightarrow> string" where
  "fmt_d i = (if i < 0 then CHR ''-'' # fmt_digits (nat (- i)) else fmt_digits (nat i))"

definition fmt_c :: "char \<Rightarrow> string" where
  "fmt_c c =
     (let n = (of_char c :: nat)
      in if n < 128 then [c] else [char_of (192 + n div 64), char_of (128 + n mod 64)])"

definition UniqueDst :: "Event \<Rightarrow> string" where
  "UniqueDst e = fmt_c (Dst e) @ fmt_d (x (dstC e)) @ fmt_d (y (dstC e))"

subsection \<open>The two callbacks of the program\<close>

text \<open>
  Both start with \<^verbatim>\<open>bender := e.Args[0].(*BenderSimulator)\<close>: the context is the policy
  object that the driver passes to \<^verbatim>\<open>FSM.Event\<close>, which the type of the model fixes. The
  \<^verbatim>\<open>switch\<close> on the tile is a chain of tests in the order of its cases.
\<close>

definition beforeCallback :: "BenderSimulator Callback" where
  "beforeCallback e f bender =
     (if Dst e = CHR ''#'' then Inr (Cancel e, f, NextDirection (Boom bender))
      else if Dst e = CHR ''X'' then
        (if Breaker bender then
           (case ChangeDst CHR '' '' e f of
              Inl p \<Rightarrow> Inl p
            | Inr f1 \<Rightarrow> Inr (e, f1, bender))
         else Inr (Cancel e, f, NextDirection (Boom bender)))
      else Inr (e, f, bender))"

definition enterCallback :: "BenderSimulator Callback" where
  "enterCallback e f bender =
     (let b1 = (if Hurts bender then BackOnTrack bender else bender);
          r = (if Dst e = CHR ''B'' then Inr (f, InvertBreaker b1)
               else if Dst e = CHR ''S'' then Inr (f, PathModifier SOUTH b1)
               else if Dst e = CHR ''N'' then Inr (f, PathModifier NORTH b1)
               else if Dst e = CHR ''E'' then Inr (f, PathModifier EAST b1)
               else if Dst e = CHR ''W'' then Inr (f, PathModifier WEST b1)
               else if Dst e = CHR ''I'' then Inr (f, InvertPriorities b1)
               else if Dst e = CHR ''T'' then
                 (case TeleportDst f (dstC e) of
                    Inl p \<Rightarrow> Inl p
                  | Inr p \<Rightarrow> Inr (SetState p f, b1))
               else if Dst e = CHR ''$'' then Inr (f, Reached b1)
               else Inr (f, b1))
      in case r of
           Inl p \<Rightarrow> Inl p
         | Inr (f2, b2) \<Rightarrow> Inr (e, f2, Remember (Event e) (UniqueDst e) b2))"

text \<open>\<^verbatim>\<open>calcNumStates\<close>; \<^verbatim>\<open>plan[0]\<close> panics on an empty plan.\<close>

definition calcNumStates :: "string list \<Rightarrow> panic + int" where
  "calcNumStates plan =
     (case plan of
        [] \<Rightarrow> Inl IndexOutOfRange
      | r # _ \<Rightarrow> Inr ((int (length plan) - 2) * (int (length r) - 2)))"

subsection \<open>Positions of the grid, as the specification speaks of them\<close>

text \<open>
  A coordinate within the grid bounds (the coordinates that the bounds test of
  \<^verbatim>\<open>FSM.Event\<close> lets through), a position strictly inside them (every neighbour is
  within bounds), and a rectangular grid (every row as long as the first).
\<close>

definition inBounds :: "FSM \<Rightarrow> Pair \<Rightarrow> bool" where
  "inBounds f p \<longleftrightarrow>
     0 \<le> x p \<and> x p < int (length (states f ! 0)) \<and> 0 \<le> y p \<and> y p < int (length (states f))"

definition strictlyInside :: "FSM \<Rightarrow> Pair \<Rightarrow> bool" where
  "strictlyInside f p \<longleftrightarrow>
     0 < x p \<and> x p + 1 < int (length (states f ! 0)) \<and> 0 < y p \<and> y p + 1 < int (length (states f))"

definition rectangular :: "FSM \<Rightarrow> bool" where
  "rectangular f \<longleftrightarrow> list_all (\<lambda>r. length r = length (states f ! 0)) (states f)"

text \<open>
  The neighbour that the specification expects of a direction: south is \<open>(x, y + 1)\<close>,
  north \<open>(x, y - 1)\<close>, east \<open>(x + 1, y)\<close>, west \<open>(x - 1, y)\<close>, written as the unit offset
  of the direction added to the position.
\<close>

definition spec_unit_offset :: "string \<Rightarrow> int \<times> int" where
  "spec_unit_offset d =
     (if d = SOUTH then (0, 1) else if d = NORTH then (0, - 1)
      else if d = EAST then (1, 0) else if d = WEST then (- 1, 0) else (0, 0))"

definition spec_neighbour :: "string \<Rightarrow> Pair \<Rightarrow> Pair" where
  "spec_neighbour d p = \<lparr>x = x p + fst (spec_unit_offset d), y = y p + snd (spec_unit_offset d)\<rparr>"

subsection \<open>Mazes of the test suite\<close>

text \<open>The plans of the two cases of \<^verbatim>\<open>TestFSM\<close> in \<^verbatim>\<open>main_test.go\<close>.\<close>

definition plan_nominal :: "string list" where
  "plan_nominal = [''#####'', ''#$ X#'', ''# @B#'', ''#####'']"

definition plan_cancelled :: "string list" where
  "plan_cancelled = [''#####'', ''#$  #'', ''#@ X#'', ''#####'']"

section \<open>Properties of the policy\<close>



subsection \<open>The reversal loop\<close>

text \<open>
  After the iterations up to \<open>i\<close>, the loop started at \<open>i\<close> and \<open>j = length ps - 1 - i\<close>
  mirrors the positions from \<open>i\<close> to \<open>j\<close> and leaves the others; every index it reads or
  writes is in range.
\<close>

lemma turnover_loop_nth:
  "0 \<le> i \<Longrightarrow> j = int (length ps) - 1 - i \<Longrightarrow>
   length (turnover_loop i j ps) = length ps \<and>
   (\<forall>k < length ps. turnover_loop i j ps ! k =
      (if nat i \<le> k \<and> k < length ps - nat i then ps ! (length ps - 1 - k) else ps ! k))"
proof (induction i j ps rule: turnover_loop.induct)
  case (1 i j ps)
  note ih = 1(1) and nonneg = 1(2) and jdef = 1(3)
  let ?n = "length ps"
  show ?case
  proof (cases "i < int ?n div 2")
    case False
    have "ps ! (?n - 1 - k) = ps ! k" if "nat i \<le> k" "k < ?n - nat i" for k
    proof -
      from False that nonneg have "k = ?n - 1 - k" by linarith
      then show ?thesis by simp
    qed
    with False show ?thesis by (simp add: turnover_loop.simps [of i j ps])
  next
    case True
    let ?qs = "ps[nat i := ps ! nat j, nat j := ps ! nat i]"
    from True nonneg jdef have ij: "nat i < nat j" "nat j < ?n" "nat j = ?n - 1 - nat i"
      by linarith+
    have len: "length ?qs = ?n" by simp
    have ni: "nat (i + 1) = Suc (nat i)" using nonneg by simp
    from ih [OF True] nonneg jdef len
    have IH: "length (turnover_loop (i + 1) (j - 1) ?qs) = ?n"
      "\<And>k. k < ?n \<Longrightarrow> turnover_loop (i + 1) (j - 1) ?qs ! k =
         (if nat (i + 1) \<le> k \<and> k < ?n - nat (i + 1) then ?qs ! (?n - 1 - k) else ?qs ! k)"
      by auto
    have unf: "turnover_loop i j ps = turnover_loop (i + 1) (j - 1) ?qs"
      using True by (simp add: turnover_loop.simps [of i j ps])
    have "turnover_loop i j ps ! k =
        (if nat i \<le> k \<and> k < ?n - nat i then ps ! (?n - 1 - k) else ps ! k)" if k: "k < ?n" for k
    proof -
      have step: "turnover_loop i j ps ! k =
          (if nat (i + 1) \<le> k \<and> k < ?n - nat (i + 1) then ?qs ! (?n - 1 - k) else ?qs ! k)"
        unfolding unf by (rule IH(2) [OF k])
      consider "k < nat i" | "k = nat i" | "nat i < k" "k < nat j" | "k = nat j" | "nat j < k"
        by linarith
      then show ?thesis
      proof cases
        case 1
        with k ij nonneg show ?thesis unfolding step ni by (auto simp: nth_list_update)
      next
        case 2
        with k ij nonneg show ?thesis unfolding step ni by (auto simp: nth_list_update)
      next
        case 3
        with k ij nonneg have "Suc (nat i) \<le> k" "k < ?n - Suc (nat i)"
          "?n - 1 - k \<noteq> nat i" "?n - 1 - k \<noteq> nat j" "nat i \<le> k" "k < ?n - nat i"
          by linarith+
        then show ?thesis unfolding step ni by (auto simp: nth_list_update)
      next
        case 4
        with k ij have "k < ?n - nat i" "nat i \<le> k" "?n - 1 - k = nat i" "k \<noteq> nat i"
          "\<not> k < ?n - Suc (nat i)" by linarith+
        with 4 ij(2) show ?thesis unfolding step ni by (simp add: nth_list_update)
      next
        case 5
        with k ij nonneg show ?thesis unfolding step ni by (auto simp: nth_list_update)
      qed
    qed
    with IH(1) unf show ?thesis by simp
  qed
qed

lemma turnover_loop_rev: "turnover_loop 0 (int (length ps) - 1) ps = rev ps"
proof (rule nth_equalityI)
  show "length (turnover_loop 0 (int (length ps) - 1) ps) = length (rev ps)"
    using turnover_loop_nth [of 0 "int (length ps) - 1" ps] by simp
next
  fix k assume "k < length (turnover_loop 0 (int (length ps) - 1) ps)"
  then have k: "k < length ps" using turnover_loop_nth [of 0 "int (length ps) - 1" ps] by simp
  then show "turnover_loop 0 (int (length ps) - 1) ps ! k = rev ps ! k"
    using turnover_loop_nth [of 0 "int (length ps) - 1" ps] by (simp add: rev_nth)
qed


lemma turnoverPriorities_rev:
  "turnoverPriorities b = b\<lparr>priorities := rev (priorities b), invertPrio := False\<rparr>"
  by (simp add: turnoverPriorities_def turnover_loop_rev)

lemma Boom_pending:
  "invertPrio b \<Longrightarrow> Boom b = b\<lparr>boom := True, pathModifier := [],
     priorities := rev (priorities b), invertPrio := False, resetDir := True\<rparr>"
  by (simp add: Boom_def turnoverPriorities_rev)

lemma Boom_no_pending:
  "\<not> invertPrio b \<Longrightarrow> Boom b = b\<lparr>boom := True, pathModifier := []\<rparr>"
  by (simp add: Boom_def)

lemma Direction_after_pending_Boom:
  assumes "invertPrio b" and "priorities b \<noteq> []"
  shows "Direction (NextDirection (Boom b)) = Inr (last (priorities b))"
proof -
  from assms(1) have "NextDirection (Boom b) = b\<lparr>boom := True, pathModifier := [],
      priorities := rev (priorities b), invertPrio := False, resetDir := False, currDir := 0\<rparr>"
    by (simp add: Boom_pending NextDirection_def)
  with assms(2) show ?thesis by (simp add: Direction_def rev_nth last_conv_nth)
qed

text \<open>
  C3. Inversion is deferred. \<^verbatim>\<open>InvertPriorities\<close> alone flips the pending flag and changes
  neither the priority ordering, nor the selection index, nor the reset flag, nor the
  direction that \<^verbatim>\<open>Direction\<close> returns. The ordering is reversed at the next \<^verbatim>\<open>Boom\<close>, and
  only when the flag is pending: then \<^verbatim>\<open>Boom\<close> also arms the reset flag and disarms the
  pending flag, and the direction after the hit (\<^verbatim>\<open>Boom\<close>, then \<^verbatim>\<open>NextDirection\<close>, as the
  obstacle filter calls them) is the last of the old ordering; with no inversion pending,
  \<^verbatim>\<open>Boom\<close> leaves ordering and reset flag alone. No other operation of the policy touches
  the ordering.
\<close>

theorem InvertPriorities_deferred:
  "priorities (InvertPriorities b) = priorities b
   \<and> currDir (InvertPriorities b) = currDir b
   \<and> resetDir (InvertPriorities b) = resetDir b
   \<and> Direction (InvertPriorities b) = Direction b
   \<and> invertPrio (InvertPriorities b) = (\<not> invertPrio b)
   \<and> (if invertPrio b
       then priorities (Boom b) = rev (priorities b) \<and> resetDir (Boom b)
            \<and> \<not> invertPrio (Boom b)
            \<and> (if priorities b = [] then True
                else Direction (NextDirection (Boom b)) = Inr (last (priorities b)))
       else priorities (Boom b) = priorities b \<and> resetDir (Boom b) = resetDir b
            \<and> \<not> invertPrio (Boom b))
   \<and> priorities (NextDirection b) = priorities b
   \<and> priorities (BackOnTrack b) = priorities b
   \<and> priorities (Remember d s b) = priorities b
   \<and> priorities (PathModifier d b) = priorities b
   \<and> priorities (InvertBreaker b) = priorities b
   \<and> priorities (Reached b) = priorities b"
proof -
  have "Direction (InvertPriorities b) = Direction b"
    by (simp add: Direction_def InvertPriorities_def)
  moreover have "invertPrio (InvertPriorities b) = (\<not> invertPrio b)"
    by (simp add: InvertPriorities_def)
  moreover have "priorities (InvertPriorities b) = priorities b
      \<and> currDir (InvertPriorities b) = currDir b \<and> resetDir (InvertPriorities b) = resetDir b"
    by (simp add: InvertPriorities_def)
  moreover have "priorities (NextDirection b) = priorities b
      \<and> priorities (BackOnTrack b) = priorities b \<and> priorities (PathModifier d b) = priorities b
      \<and> priorities (InvertBreaker b) = priorities b \<and> priorities (Reached b) = priorities b"
    by (simp add: NextDirection_def BackOnTrack_def PathModifier_def InvertBreaker_def
        Reached_def)
  moreover have "priorities (Remember d s b) = priorities b"
    by (cases "cache b s") (simp_all add: Remember_def)
  moreover have "if invertPrio b
       then priorities (Boom b) = rev (priorities b) \<and> resetDir (Boom b)
            \<and> \<not> invertPrio (Boom b)
            \<and> (if priorities b = [] then True
                else Direction (NextDirection (Boom b)) = Inr (last (priorities b)))
       else priorities (Boom b) = priorities b \<and> resetDir (Boom b) = resetDir b
            \<and> \<not> invertPrio (Boom b)"
  proof (cases "invertPrio b")
    case True
    then have "priorities (Boom b) = rev (priorities b) \<and> resetDir (Boom b)
        \<and> \<not> invertPrio (Boom b)"
      by (simp add: Boom_pending)
    with True show ?thesis by (simp add: Direction_after_pending_Boom)
  next
    case False
    then show ?thesis by (simp add: Boom_no_pending)
  qed
  ultimately show ?thesis by blast
qed

text \<open>
  The steps of \<^verbatim>\<open>TestBenderSimulator\<close>: the direction is SOUTH before and after the flag
  is armed, and WEST after the next hit.
\<close>

theorem InvertPriorities_deferred_witness:
  "Direction (NewBenderSimulator 9) = Inr SOUTH
   \<and> Direction (InvertPriorities (NewBenderSimulator 9)) = Inr SOUTH
   \<and> priorities (InvertPriorities (NewBenderSimulator 9)) = [SOUTH, EAST, NORTH, WEST]
   \<and> invertPrio (InvertPriorities (NewBenderSimulator 9))
   \<and> priorities (Boom (InvertPriorities (NewBenderSimulator 9))) = [WEST, NORTH, EAST, SOUTH]
   \<and> resetDir (Boom (InvertPriorities (NewBenderSimulator 9)))
   \<and> \<not> invertPrio (Boom (InvertPriorities (NewBenderSimulator 9)))
   \<and> Direction (NextDirection (Boom (InvertPriorities (NewBenderSimulator 9)))) = Inr WEST"
proof -
  let ?b = "NewBenderSimulator 9"
  have start: "Direction ?b = Inr SOUTH" "priorities ?b = [SOUTH, EAST, NORTH, WEST]"
    "\<not> invertPrio ?b"
    by (simp_all add: NewBenderSimulator_def Direction_def)
  from InvertPriorities_deferred [of ?b] start
  have armed: "Direction (InvertPriorities ?b) = Inr SOUTH"
    "priorities (InvertPriorities ?b) = [SOUTH, EAST, NORTH, WEST]"
    "invertPrio (InvertPriorities ?b)"
    by simp_all
  from InvertPriorities_deferred [of "InvertPriorities ?b"] armed
  have "priorities (Boom (InvertPriorities ?b)) = [WEST, NORTH, EAST, SOUTH]"
    "resetDir (Boom (InvertPriorities ?b))" "\<not> invertPrio (Boom (InvertPriorities ?b))"
    "Direction (NextDirection (Boom (InvertPriorities ?b))) = Inr WEST"
    by simp_all
  with start(1) armed show ?thesis by simp
qed

subsection \<open>Cycling through the priorities\<close>

lemma NextDirection_reset:
  assumes "resetDir b"
  shows "NextDirection b = b\<lparr>currDir := 0, resetDir := False\<rparr>"
  using assms by (simp add: NextDirection_def)

text \<open>
  C6, as the code has it. With the reset flag not armed, and the selection index a valid
  index into a four-element ordering, four calls of \<^verbatim>\<open>NextDirection\<close> give back the very
  state they started from: the index, and with it the direction that \<^verbatim>\<open>Direction\<close>
  returns, is restored. With the reset flag armed the first call goes to the first
  priority instead and disarms the flag, so four calls end on the last priority, whatever
  the index was.
\<close>

theorem NextDirection_four:
  assumes len: "length (priorities b) = 4"
    and idx: "0 \<le> currDir b" "currDir b < 4"
  shows "if resetDir b
         then currDir (NextDirection (NextDirection (NextDirection (NextDirection b)))) = 3
         else NextDirection (NextDirection (NextDirection (NextDirection b))) = b
              \<and> Direction (NextDirection (NextDirection (NextDirection (NextDirection b))))
                  = Direction b"
proof (cases "resetDir b")
  case True
  then show ?thesis using len by (simp add: NextDirection_def)
next
  case False
  from idx consider "currDir b = 0" | "currDir b = 1" | "currDir b = 2" | "currDir b = 3"
    by linarith
  then have "NextDirection (NextDirection (NextDirection (NextDirection b))) = b"
    using False len by cases (simp_all add: NextDirection_def)
  with False show ?thesis by simp
qed

theorem NextDirection_four_witness:
  "NextDirection (NextDirection (NextDirection (NextDirection
      (NextDirection (NewBenderSimulator 9))))) = NextDirection (NewBenderSimulator 9)
   \<and> Direction (NextDirection (NewBenderSimulator 9)) = Inr EAST
   \<and> currDir (NextDirection (NextDirection (NextDirection (NextDirection
        (BackOnTrack (NextDirection (NewBenderSimulator 9))))))) = 3"
  using NextDirection_four [of "NextDirection (NewBenderSimulator 9)"]
    NextDirection_four [of "BackOnTrack (NextDirection (NewBenderSimulator 9))"]
  by (simp add: NewBenderSimulator_def NextDirection_def BackOnTrack_def Direction_def)

text \<open>
  The claim as it is written fails on a state the program reaches: a wall hit on a fresh
  simulator (\<^verbatim>\<open>NextDirection\<close>, index 1), then a committed move (\<^verbatim>\<open>BackOnTrack\<close> arms the
  reset flag). Four more calls leave the index at 3, and the direction goes from EAST to
  WEST.
\<close>

theorem NextDirection_four_counterexample:
  "currDir (BackOnTrack (NextDirection (NewBenderSimulator 9))) = 1
   \<and> Direction (BackOnTrack (NextDirection (NewBenderSimulator 9))) = Inr EAST
   \<and> currDir (NextDirection (NextDirection (NextDirection (NextDirection
        (BackOnTrack (NextDirection (NewBenderSimulator 9))))))) = 3
   \<and> Direction (NextDirection (NextDirection (NextDirection (NextDirection
        (BackOnTrack (NextDirection (NewBenderSimulator 9))))))) = Inr WEST"
  by (simp add: NewBenderSimulator_def NextDirection_def BackOnTrack_def Direction_def)

subsection \<open>Escaping an obstacle\<close>

lemma enterCallback_flags:
  assumes "enterCallback e f b = Inr (e', f', b')"
  shows "boom b' = (if Hurts b then False else boom b)"
    and "resetDir b' = (if Hurts b then True else resetDir b)"
  using assms
  by (auto simp: enterCallback_def Let_def Hurts_def BackOnTrack_def InvertBreaker_def
      PathModifier_def InvertPriorities_def Reached_def Remember_def
      split: if_splits sum.splits option.splits)

text \<open>
  C10. \<^verbatim>\<open>BackOnTrack\<close> clears the obstacle-hit flag and arms the reset flag, whatever
  the pending-inversion flag is (it is left as it was); the next \<^verbatim>\<open>NextDirection\<close> then
  puts the selection index on the first priority, whatever the index was, and disarms the
  reset flag. The enter callback calls it on a committed move made while the obstacle-hit
  flag is set: when that callback returns, the obstacle-hit flag is clear, the reset flag
  is armed and the next \<^verbatim>\<open>NextDirection\<close> selects the first priority.
\<close>

theorem BackOnTrack_arms_reset:
  "\<not> Hurts (BackOnTrack b) \<and> resetDir (BackOnTrack b)
   \<and> invertPrio (BackOnTrack b) = invertPrio b
   \<and> currDir (NextDirection (BackOnTrack b)) = 0
   \<and> \<not> resetDir (NextDirection (BackOnTrack b))
   \<and> (Hurts b \<and> enterCallback e f b = Inr (e', f', b') \<longrightarrow>
         \<not> Hurts b' \<and> resetDir b' \<and> currDir (NextDirection b') = 0)"
proof -
  have direct: "\<not> Hurts (BackOnTrack b) \<and> resetDir (BackOnTrack b)
      \<and> invertPrio (BackOnTrack b) = invertPrio b"
    by (simp add: BackOnTrack_def Hurts_def)
  then have next_dir: "currDir (NextDirection (BackOnTrack b)) = 0
      \<and> \<not> resetDir (NextDirection (BackOnTrack b))"
    by (simp add: NextDirection_reset)
  have "\<not> Hurts b' \<and> resetDir b' \<and> currDir (NextDirection b') = 0"
    if "Hurts b" and "enterCallback e f b = Inr (e', f', b')"
  proof -
    from that enterCallback_flags [of e f b e' f' b']
    have "\<not> boom b'" and "resetDir b'" by simp_all
    then show ?thesis by (simp add: Hurts_def NextDirection_reset)
  qed
  with direct next_dir show ?thesis by blast
qed


lemma NewFSM_plan_nominal:
  "NewFSM plan_nominal =
     \<lparr>states = [''#####'', ''#$ X#'', ''# @B#'', ''#####''], curr = \<lparr>x = 2, y = 2\<rparr>,
      teleports = []\<rparr>"
  by (simp add: NewFSM_def plan_nominal_def)

lemma UniqueDst_example:
  "UniqueDst \<lparr>Event = NORTH, Dst = CHR '' '', dstC = \<lparr>x = 2, y = 1\<rparr>, Cancelled = False\<rparr> = '' 21''"
  by code_simp

theorem BackOnTrack_arms_reset_witness:
  "Hurts (NextDirection (Boom (NewBenderSimulator 6)))
   \<and> \<not> invertPrio (NextDirection (Boom (NewBenderSimulator 6)))
   \<and> enterCallback \<lparr>Event = NORTH, Dst = CHR '' '', dstC = \<lparr>x = 2, y = 1\<rparr>, Cancelled = False\<rparr>
        (NewFSM plan_nominal) (NextDirection (Boom (NewBenderSimulator 6)))
      = Inr (\<lparr>Event = NORTH, Dst = CHR '' '', dstC = \<lparr>x = 2, y = 1\<rparr>, Cancelled = False\<rparr>,
             NewFSM plan_nominal,
             Remember NORTH '' 21'' (BackOnTrack (NextDirection (Boom (NewBenderSimulator 6)))))
   \<and> \<not> Hurts (Remember NORTH '' 21'' (BackOnTrack (NextDirection (Boom (NewBenderSimulator 6)))))
   \<and> resetDir (Remember NORTH '' 21'' (BackOnTrack (NextDirection (Boom (NewBenderSimulator 6)))))
   \<and> currDir (NextDirection
        (Remember NORTH '' 21'' (BackOnTrack (NextDirection (Boom (NewBenderSimulator 6)))))) = 0
   \<and> currDir (BackOnTrack (NextDirection (Boom (NewBenderSimulator 6)))) = 1
   \<and> currDir (NextDirection (BackOnTrack (NextDirection (Boom (NewBenderSimulator 6))))) = 0"
proof -
  let ?b = "NextDirection (Boom (NewBenderSimulator 6))"
  let ?e = "\<lparr>Event = NORTH, Dst = CHR '' '', dstC = \<lparr>x = 2, y = 1\<rparr>, Cancelled = False\<rparr>"
  have hurts: "Hurts ?b" and pending: "\<not> invertPrio ?b" and idx: "currDir (BackOnTrack ?b) = 1"
    by (simp_all add: NewBenderSimulator_def Boom_def NextDirection_def Hurts_def BackOnTrack_def)
  have enter: "enterCallback ?e (NewFSM plan_nominal) ?b
      = Inr (?e, NewFSM plan_nominal, Remember NORTH '' 21'' (BackOnTrack ?b))"
    using hurts by (simp add: enterCallback_def UniqueDst_example)
  from BackOnTrack_arms_reset [of ?b ?e "NewFSM plan_nominal" ?e "NewFSM plan_nominal"
      "Remember NORTH '' 21'' (BackOnTrack ?b)"] hurts pending enter idx
  show ?thesis by simp
qed

subsection \<open>Loop detection\<close>








section \<open>Properties of the grid state machine\<close>

subsection \<open>The bounds test\<close>

lemma FSM_Event_in_bounds:
  assumes "inBounds f (Event_dst f evt)"
    and "x (Event_dst f evt) < int (length (states f ! nat (y (Event_dst f evt))))"
  shows "FSM_Event beforeCB enterCB f evt args =
      Event_callbacks beforeCB enterCB (Event_dst f evt) (Event_at f evt (Event_dst f evt)) f args"
proof -
  from assms(1) have "states f \<noteq> []" by (auto simp: inBounds_def)
  with assms show ?thesis by (simp add: FSM_Event_def inBounds_def Let_def)
qed

lemma Event_callbacks_no_error:
  "Event_callbacks beforeCB enterCB dst e f args \<noteq> Inr (Some err, f', args')"
  by (auto simp: Event_callbacks_def split: sum.splits prod.splits)

text \<open>
  C2. On a grid with at least one row, a destination outside the bounds makes
  \<^verbatim>\<open>FSM.Event\<close> return the error, with the machine (position and tiles) and the context as
  they were. The result is the same for every pair of callbacks: none is invoked.
  (A grid with no row at all makes \<^verbatim>\<open>f.states[0]\<close> panic before the test is finished.)
\<close>

theorem FSM_Event_out_of_bounds:
  assumes "states f \<noteq> []" and "\<not> inBounds f (Event_dst f evt)"
  shows "FSM_Event beforeCB enterCB f evt args
      = Inr (Some (UnknownState (Event_dst f evt)), f, args)"
proof -
  let ?dst = "Event_dst f evt"
  from assms(2) consider "x ?dst < 0" | "0 \<le> x ?dst" "x ?dst \<ge> int (length (states f ! 0))"
    | "0 \<le> x ?dst" "y ?dst < 0" | "0 \<le> x ?dst" "y ?dst \<ge> int (length (states f))"
    unfolding inBounds_def by linarith
  then show ?thesis
  proof cases
    case 1
    then show ?thesis by (simp add: FSM_Event_def Let_def)
  next
    case 2
    with assms(1) show ?thesis by (simp add: FSM_Event_def Let_def)
  next
    case 3
    with assms(1) show ?thesis by (simp add: FSM_Event_def Let_def)
  next
    case 4
    with assms(1) show ?thesis by (simp add: FSM_Event_def Let_def)
  qed
qed

lemma NewFSM_single:
  "NewFSM [''@''] = \<lparr>states = [''@''], curr = \<lparr>x = 0, y = 0\<rparr>, teleports = []\<rparr>"
  by (simp add: NewFSM_def)

theorem FSM_Event_out_of_bounds_witness:
  "states (NewFSM [''@'']) \<noteq> []
   \<and> Event_dst (NewFSM [''@'']) SOUTH = \<lparr>x = 0, y = 1\<rparr>
   \<and> \<not> inBounds (NewFSM [''@'']) \<lparr>x = 0, y = 1\<rparr>
   \<and> FSM_Event beforeCallback enterCallback (NewFSM [''@'']) SOUTH (NewBenderSimulator 0)
       = Inr (Some (UnknownState \<lparr>x = 0, y = 1\<rparr>), NewFSM [''@''], NewBenderSimulator 0)"
proof -
  have rows: "states (NewFSM [''@'']) \<noteq> []" by (simp add: NewFSM_single)
  have dst: "Event_dst (NewFSM [''@'']) SOUTH = \<lparr>x = 0, y = 1\<rparr>"
    by (simp add: NewFSM_single Event_dst_def)
  have out: "\<not> inBounds (NewFSM [''@'']) (Event_dst (NewFSM [''@'']) SOUTH)"
    by (simp add: dst) (simp add: NewFSM_single inBounds_def)
  from FSM_Event_out_of_bounds [OF rows out, of beforeCallback enterCallback "NewBenderSimulator 0"]
    rows dst out
  show ?thesis by simp
qed

subsection \<open>Cancellation\<close>

lemma Event_callbacks_cancelled:
  assumes "beforeCB e f args = Inr (e1, f1, args1)" and "Cancelled e1"
  shows "Event_callbacks beforeCB enterCB dst e f args = Inr (None, f1, args1)"
  using assms by (simp add: Event_callbacks_def)

lemma Event_callbacks_entered:
  assumes "beforeCB e f args = Inr (e1, f1, args1)" and "\<not> Cancelled e1"
  shows "Event_callbacks beforeCB enterCB dst e f args =
      (case enterCB e1 (f1\<lparr>curr := dst\<rparr>) args1 of
         Inl p \<Rightarrow> Inl p
       | Inr (e2, f2, args2) \<Rightarrow> Inr (None, f2, args2))"
  using assms by (simp add: Event_callbacks_def)

text \<open>What the obstacle filter does to the policy when it cancels: a hit, then the next priority.\<close>

lemma Boom_keeps_path:
  "path (Boom b) = path b \<and> cache (Boom b) = cache b \<and> loopCnt (Boom b) = loopCnt b"
  by (cases "invertPrio b") (simp_all add: Boom_pending Boom_no_pending)

lemma NextDirection_keeps_path:
  "path (NextDirection b) = path b \<and> cache (NextDirection b) = cache b
   \<and> loopCnt (NextDirection b) = loopCnt b"
  by (simp add: NextDirection_def)

lemma beforeCallback_cancelled:
  assumes "beforeCallback e f b = Inr (e1, f1, b1)" and "Cancelled e1" and "\<not> Cancelled e"
  shows "f1 = f" and "b1 = NextDirection (Boom b)"
  using assms
  by (auto simp: beforeCallback_def Cancel_def split: if_splits sum.splits)

text \<open>
  C1. The destination is within bounds (and its row is long enough to hold it, as in a
  rectangular grid), and the obstacle filter \<^verbatim>\<open>beforeCallback\<close> returns with the
  cancellation flag set. Then \<^verbatim>\<open>FSM.Event\<close> returns \<^verbatim>\<open>nil\<close>; the machine is the one
  before the call, position and tiles; the policy has recorded the hit and advanced its
  priority, and its path, its cache and its loop counter are what they were. This holds
  for every enter callback: it is not invoked.
\<close>

theorem FSM_Event_cancelled:
  assumes "inBounds f (Event_dst f evt)"
    and "x (Event_dst f evt) < int (length (states f ! nat (y (Event_dst f evt))))"
    and "beforeCallback (Event_at f evt (Event_dst f evt)) f b = Inr (e1, f1, b1)"
    and "Cancelled e1"
  shows "FSM_Event beforeCallback enterCB f evt b = Inr (None, f, b1)
    \<and> f1 = f \<and> curr f1 = curr f \<and> states f1 = states f
    \<and> b1 = NextDirection (Boom b)
    \<and> path b1 = path b \<and> cache b1 = cache b \<and> loopCnt b1 = loopCnt b"
proof -
  let ?dst = "Event_dst f evt"
  have fresh: "\<not> Cancelled (Event_at f evt ?dst)" by (simp add: Event_at_def)
  from beforeCallback_cancelled [OF assms(3,4) fresh]
  have same: "f1 = f" and b1: "b1 = NextDirection (Boom b)" .
  have "FSM_Event beforeCallback enterCB f evt b =
      Event_callbacks beforeCallback enterCB ?dst (Event_at f evt ?dst) f b"
    using assms(1,2) by (rule FSM_Event_in_bounds)
  also have "\<dots> = Inr (None, f1, b1)"
    using assms(3,4) by (rule Event_callbacks_cancelled)
  finally have "FSM_Event beforeCallback enterCB f evt b = Inr (None, f, b1)"
    by (simp add: same)
  moreover have "path b1 = path b \<and> cache b1 = cache b \<and> loopCnt b1 = loopCnt b"
    by (simp add: b1 NextDirection_keeps_path Boom_keeps_path)
  ultimately show ?thesis using same b1 by simp
qed

lemma NewFSM_plan_cancelled:
  "NewFSM plan_cancelled =
     \<lparr>states = [''#####'', ''#$  #'', ''#@ X#'', ''#####''], curr = \<lparr>x = 1, y = 2\<rparr>,
      teleports = []\<rparr>"
  by (simp add: NewFSM_def plan_cancelled_def)

text \<open>
  On the maze of the test case \<open>cancelled\<close>, the agent at its start \<open>(1, 2)\<close> asks for
  WEST, into the wall at \<open>(0, 2)\<close>; the enter callback given here would panic if it were
  invoked.
\<close>

theorem FSM_Event_cancelled_witness:
  "inBounds (NewFSM plan_cancelled) (Event_dst (NewFSM plan_cancelled) WEST)
   \<and> Event_dst (NewFSM plan_cancelled) WEST = \<lparr>x = 0, y = 2\<rparr>
   \<and> beforeCallback (Event_at (NewFSM plan_cancelled) WEST \<lparr>x = 0, y = 2\<rparr>)
        (NewFSM plan_cancelled) (NewBenderSimulator 6)
      = Inr (\<lparr>Event = WEST, Dst = CHR ''#'', dstC = \<lparr>x = 0, y = 2\<rparr>, Cancelled = True\<rparr>,
             NewFSM plan_cancelled, NextDirection (Boom (NewBenderSimulator 6)))
   \<and> FSM_Event beforeCallback (\<lambda>e f b. Inl IndexOutOfRange) (NewFSM plan_cancelled) WEST
        (NewBenderSimulator 6)
      = Inr (None, NewFSM plan_cancelled, NextDirection (Boom (NewBenderSimulator 6)))
   \<and> curr (NewFSM plan_cancelled) = \<lparr>x = 1, y = 2\<rparr>
   \<and> path (NextDirection (Boom (NewBenderSimulator 6))) = []"
proof -
  let ?f = "NewFSM plan_cancelled"
  let ?b = "NewBenderSimulator 6"
  have dst: "Event_dst ?f WEST = \<lparr>x = 0, y = 2\<rparr>"
    by (simp add: NewFSM_plan_cancelled Event_dst_def direction_defs)
  have inb: "inBounds ?f (Event_dst ?f WEST)"
    unfolding dst by (simp add: NewFSM_plan_cancelled inBounds_def)
  have row: "x (Event_dst ?f WEST) < int (length (states ?f ! nat (y (Event_dst ?f WEST))))"
    unfolding dst by (simp add: NewFSM_plan_cancelled)
  have before: "beforeCallback (Event_at ?f WEST (Event_dst ?f WEST)) ?f ?b
      = Inr (\<lparr>Event = WEST, Dst = CHR ''#'', dstC = \<lparr>x = 0, y = 2\<rparr>, Cancelled = True\<rparr>,
             ?f, NextDirection (Boom ?b))"
    unfolding dst by (simp add: NewFSM_plan_cancelled Event_at_def beforeCallback_def Cancel_def)
  have pos: "curr ?f = \<lparr>x = 1, y = 2\<rparr>" by (simp add: NewFSM_plan_cancelled)
  have no_path: "path ?b = []" by (simp add: NewBenderSimulator_def)
  from FSM_Event_cancelled [OF inb row before, of "\<lambda>e f b. Inl IndexOutOfRange"]
    inb dst before pos no_path
  show ?thesis by simp
qed

subsection \<open>Destinations\<close>

lemma directions_distinct:
  "SOUTH \<noteq> NORTH" "SOUTH \<noteq> EAST" "SOUTH \<noteq> WEST" "NORTH \<noteq> EAST" "NORTH \<noteq> WEST"
  "EAST \<noteq> WEST"
  by (simp_all add: direction_defs)

lemma Event_dst_direction:
  assumes "evt \<in> {SOUTH, NORTH, EAST, WEST}"
  shows "Event_dst f evt = spec_neighbour evt (curr f)"
  using assms directions_distinct
  by (auto simp: Event_dst_def spec_neighbour_def spec_unit_offset_def)

lemma rectangular_row:
  assumes "rectangular f" and "0 \<le> i" and "i < int (length (states f))"
  shows "length (states f ! nat i) = length (states f ! 0)"
proof -
  from assms(2,3) have "states f ! nat i \<in> set (states f)" by simp
  with assms(1) show ?thesis by (simp add: rectangular_def list_all_iff)
qed

lemma neighbour_in_bounds:
  assumes "evt \<in> {SOUTH, NORTH, EAST, WEST}" and "strictlyInside f (curr f)"
  shows "inBounds f (spec_neighbour evt (curr f))"
  using assms directions_distinct
  by (auto simp: strictlyInside_def inBounds_def spec_neighbour_def spec_unit_offset_def)

text \<open>
  C5. For each of the four directions, from a position strictly inside the bounds of a
  rectangular grid, the destination that \<^verbatim>\<open>FSM.Event\<close> computes is the neighbour the
  specification expects, it is within bounds, the event handed to the before callback
  carries it with the tile found there, and, when the before callback returns without
  cancelling, the enter callback receives the machine with its position set to exactly
  that neighbour; \<^verbatim>\<open>FSM.Event\<close> then returns \<^verbatim>\<open>nil\<close> with whatever the enter callback
  leaves (with an enter callback that leaves the machine alone, the neighbour).
\<close>

theorem FSM_Event_neighbour:
  assumes dir: "evt \<in> {SOUTH, NORTH, EAST, WEST}"
    and inside: "strictlyInside f (curr f)"
    and rect: "rectangular f"
  shows "Event_dst f evt = spec_neighbour evt (curr f)
    \<and> inBounds f (spec_neighbour evt (curr f))
    \<and> dstC (Event_at f evt (Event_dst f evt)) = spec_neighbour evt (curr f)
    \<and> (\<forall>e1 f1 args1.
          beforeCB (Event_at f evt (spec_neighbour evt (curr f))) f args = Inr (e1, f1, args1)
          \<and> \<not> Cancelled e1 \<longrightarrow>
          FSM_Event beforeCB enterCB f evt args =
            (case enterCB e1 (f1\<lparr>curr := spec_neighbour evt (curr f)\<rparr>) args1 of
               Inl p \<Rightarrow> Inl p
             | Inr (e2, f2, args2) \<Rightarrow> Inr (None, f2, args2))
          \<and> FSM_Event beforeCB (\<lambda>e f a. Inr (e, f, a)) f evt args =
              Inr (None, f1\<lparr>curr := spec_neighbour evt (curr f)\<rparr>, args1))"
proof -
  let ?nb = "spec_neighbour evt (curr f)"
  have dst: "Event_dst f evt = ?nb" using dir by (rule Event_dst_direction)
  have inb: "inBounds f ?nb" using dir inside by (rule neighbour_in_bounds)
  then have "0 \<le> y ?nb" "y ?nb < int (length (states f))" "x ?nb < int (length (states f ! 0))"
    by (simp_all add: inBounds_def)
  with rectangular_row [OF rect, of "y ?nb"]
  have row: "x ?nb < int (length (states f ! nat (y ?nb)))" by simp
  have run: "FSM_Event bcb ecb f evt args = Event_callbacks bcb ecb ?nb (Event_at f evt ?nb) f args"
    for bcb ecb :: "'a Callback"
    using FSM_Event_in_bounds [of f evt bcb ecb args] inb row by (simp add: dst)
  have "FSM_Event beforeCB enterCB f evt args =
          (case enterCB e1 (f1\<lparr>curr := ?nb\<rparr>) args1 of
             Inl p \<Rightarrow> Inl p
           | Inr (e2, f2, args2) \<Rightarrow> Inr (None, f2, args2))
        \<and> FSM_Event beforeCB (\<lambda>e f a. Inr (e, f, a)) f evt args = Inr (None, f1\<lparr>curr := ?nb\<rparr>, args1)"
    if "beforeCB (Event_at f evt ?nb) f args = Inr (e1, f1, args1)" and "\<not> Cancelled e1"
    for e1 f1 args1
    using that by (simp add: run Event_callbacks_entered)
  moreover have "dstC (Event_at f evt (Event_dst f evt)) = ?nb"
    by (simp add: dst Event_at_def)
  ultimately show ?thesis using dst inb by blast
qed

text \<open>
  On the maze of the test case \<open>nominal\<close>, the agent at its start \<open>(2, 2)\<close> goes EAST
  onto the breaker tile at \<open>(3, 2)\<close>, the first event that the test expects.
\<close>

theorem FSM_Event_neighbour_witness:
  "EAST \<in> {SOUTH, NORTH, EAST, WEST}
   \<and> strictlyInside (NewFSM plan_nominal) (curr (NewFSM plan_nominal))
   \<and> rectangular (NewFSM plan_nominal)
   \<and> curr (NewFSM plan_nominal) = \<lparr>x = 2, y = 2\<rparr>
   \<and> Event_dst (NewFSM plan_nominal) EAST = \<lparr>x = 3, y = 2\<rparr>
   \<and> beforeCallback (Event_at (NewFSM plan_nominal) EAST \<lparr>x = 3, y = 2\<rparr>)
        (NewFSM plan_nominal) (NewBenderSimulator 6)
      = Inr (\<lparr>Event = EAST, Dst = CHR ''B'', dstC = \<lparr>x = 3, y = 2\<rparr>, Cancelled = False\<rparr>,
             NewFSM plan_nominal, NewBenderSimulator 6)
   \<and> FSM_Event beforeCallback enterCallback (NewFSM plan_nominal) EAST (NewBenderSimulator 6)
      = Inr (None, (NewFSM plan_nominal)\<lparr>curr := \<lparr>x = 3, y = 2\<rparr>\<rparr>,
             Remember EAST ''B32'' (InvertBreaker (NewBenderSimulator 6)))"
proof -
  let ?f = "NewFSM plan_nominal"
  let ?b = "NewBenderSimulator 6"
  let ?e = "\<lparr>Event = EAST, Dst = CHR ''B'', dstC = \<lparr>x = 3, y = 2\<rparr>, Cancelled = False\<rparr>"
  have dir: "EAST \<in> {SOUTH, NORTH, EAST, WEST}" by simp
  have pos: "curr ?f = \<lparr>x = 2, y = 2\<rparr>" by (simp add: NewFSM_plan_nominal)
  have inside: "strictlyInside ?f (curr ?f)"
    by (simp add: NewFSM_plan_nominal strictlyInside_def)
  have rect: "rectangular ?f" by (simp add: NewFSM_plan_nominal rectangular_def)
  have nb: "spec_neighbour EAST (curr ?f) = \<lparr>x = 3, y = 2\<rparr>"
    by (simp add: pos spec_neighbour_def spec_unit_offset_def direction_defs)
  have ev: "Event_at ?f EAST \<lparr>x = 3, y = 2\<rparr> = ?e"
    by (simp add: NewFSM_plan_nominal Event_at_def)
  have before: "beforeCallback (Event_at ?f EAST \<lparr>x = 3, y = 2\<rparr>) ?f ?b = Inr (?e, ?f, ?b)"
    by (simp add: ev beforeCallback_def)
  have uniq: "UniqueDst ?e = ''B32''" by code_simp
  have enter: "enterCallback ?e (?f\<lparr>curr := \<lparr>x = 3, y = 2\<rparr>\<rparr>) ?b
      = Inr (?e, ?f\<lparr>curr := \<lparr>x = 3, y = 2\<rparr>\<rparr>, Remember EAST ''B32'' (InvertBreaker ?b))"
    by (simp add: enterCallback_def uniq Hurts_def NewBenderSimulator_def)
  from FSM_Event_neighbour [OF dir inside rect, of beforeCallback ?b enterCallback]
  have "Event_dst ?f EAST = \<lparr>x = 3, y = 2\<rparr>"
    and "FSM_Event beforeCallback enterCallback ?f EAST ?b
      = Inr (None, ?f\<lparr>curr := \<lparr>x = 3, y = 2\<rparr>\<rparr>, Remember EAST ''B32'' (InvertBreaker ?b))"
    using before enter by (simp_all add: nb)
  with dir pos inside rect before show ?thesis by simp
qed

lemma Event_dst_other:
  assumes "evt \<notin> {SOUTH, NORTH, EAST, WEST}"
  shows "Event_dst f evt = \<lparr>x = 0, y = 0\<rparr>"
  using assms by (simp add: Event_dst_def)

text \<open>
  C8. An event that is none of the four direction constants leaves the destination at
  the zero coordinate. On a grid whose first row is not empty that is within bounds, so
  \<^verbatim>\<open>FSM.Event\<close> returns no error: it hands the before callback the event for the tile at
  \<open>(0, 0)\<close>. When that callback returns with the cancellation flag set, the call returns
  \<^verbatim>\<open>nil\<close> with what the callback left; when it returns without cancelling, the position
  is set to \<open>(0, 0)\<close> and the enter callback is invoked on the same event, and the call
  returns \<^verbatim>\<open>nil\<close> with what the enter callback leaves; a panic of the before callback
  ends the call. With the callbacks of the program: a wall in that corner makes the call
  an obstacle hit (the machine as it was, the policy after \<^verbatim>\<open>Boom\<close> and
  \<^verbatim>\<open>NextDirection\<close>), and a free tile in that corner makes the agent move there and
  record the move under the event's name.
\<close>

theorem FSM_Event_unknown_direction:
  assumes other: "evt \<notin> {SOUTH, NORTH, EAST, WEST}"
    and rows: "states f \<noteq> []"
    and cols: "states f ! 0 \<noteq> []"
  shows "Event_dst f evt = \<lparr>x = 0, y = 0\<rparr>
    \<and> inBounds f \<lparr>x = 0, y = 0\<rparr>
    \<and> (\<forall>err f' args'. FSM_Event beforeCB enterCB f evt args \<noteq> Inr (Some err, f', args'))
    \<and> (\<forall>p. beforeCB \<lparr>Event = evt, Dst = states f ! 0 ! 0, dstC = \<lparr>x = 0, y = 0\<rparr>,
                       Cancelled = False\<rparr> f args = Inl p \<longrightarrow>
           FSM_Event beforeCB enterCB f evt args = Inl p)
    \<and> (\<forall>e1 f1 args1.
           beforeCB \<lparr>Event = evt, Dst = states f ! 0 ! 0, dstC = \<lparr>x = 0, y = 0\<rparr>,
                     Cancelled = False\<rparr> f args = Inr (e1, f1, args1) \<and> Cancelled e1 \<longrightarrow>
           FSM_Event beforeCB enterCB f evt args = Inr (None, f1, args1))
    \<and> (\<forall>e1 f1 args1.
           beforeCB \<lparr>Event = evt, Dst = states f ! 0 ! 0, dstC = \<lparr>x = 0, y = 0\<rparr>,
                     Cancelled = False\<rparr> f args = Inr (e1, f1, args1) \<and> \<not> Cancelled e1 \<longrightarrow>
           FSM_Event beforeCB enterCB f evt args =
             (case enterCB e1 (f1\<lparr>curr := \<lparr>x = 0, y = 0\<rparr>\<rparr>) args1 of
                Inl p \<Rightarrow> Inl p
              | Inr (e2, f2, args2) \<Rightarrow> Inr (None, f2, args2)))
    \<and> (states f ! 0 ! 0 = CHR ''#'' \<longrightarrow>
         FSM_Event beforeCallback enterCallback f evt b = Inr (None, f, NextDirection (Boom b)))
    \<and> (states f ! 0 ! 0 = CHR '' '' \<longrightarrow>
         FSM_Event beforeCallback enterCallback f evt b =
           Inr (None, f\<lparr>curr := \<lparr>x = 0, y = 0\<rparr>\<rparr>,
                Remember evt '' 00'' (if Hurts b then BackOnTrack b else b)))"
proof -
  let ?o = "\<lparr>x = 0, y = 0\<rparr>"
  let ?e = "\<lparr>Event = evt, Dst = states f ! 0 ! 0, dstC = ?o, Cancelled = False\<rparr>"
  have dst: "Event_dst f evt = ?o" using other by (rule Event_dst_other)
  have inb: "inBounds f ?o" using rows cols by (simp add: inBounds_def)
  have ev: "Event_at f evt ?o = ?e" by (simp add: Event_at_def)
  have run: "FSM_Event bcb ecb f evt a = Event_callbacks bcb ecb ?o ?e f a"
    for bcb ecb :: "'c Callback" and a
    using FSM_Event_in_bounds [of f evt bcb ecb a] inb cols by (simp add: dst ev)
  have no_err: "FSM_Event beforeCB enterCB f evt args \<noteq> Inr (Some err, f', args')"
    for err f' args'
    by (simp add: run Event_callbacks_no_error)
  have panics: "FSM_Event beforeCB enterCB f evt args = Inl p"
    if "beforeCB ?e f args = Inl p" for p
    using that by (simp add: run Event_callbacks_def)
  have cancelled: "FSM_Event beforeCB enterCB f evt args = Inr (None, f1, args1)"
    if "beforeCB ?e f args = Inr (e1, f1, args1) \<and> Cancelled e1" for e1 f1 args1
    using that by (simp add: run Event_callbacks_cancelled)
  have entered: "FSM_Event beforeCB enterCB f evt args =
        (case enterCB e1 (f1\<lparr>curr := ?o\<rparr>) args1 of
           Inl p \<Rightarrow> Inl p
         | Inr (e2, f2, args2) \<Rightarrow> Inr (None, f2, args2))"
    if "beforeCB ?e f args = Inr (e1, f1, args1) \<and> \<not> Cancelled e1" for e1 f1 args1
    using that by (simp add: run Event_callbacks_entered)
  have wall: "FSM_Event beforeCallback enterCallback f evt b
      = Inr (None, f, NextDirection (Boom b))"
    if "states f ! 0 ! 0 = CHR ''#''"
  proof -
    have "beforeCallback ?e f b = Inr (Cancel ?e, f, NextDirection (Boom b))"
      using that by (simp add: beforeCallback_def)
    moreover have "Cancelled (Cancel ?e)" by (simp add: Cancel_def)
    ultimately show ?thesis unfolding run by (rule Event_callbacks_cancelled)
  qed
  have free: "FSM_Event beforeCallback enterCallback f evt b =
      Inr (None, f\<lparr>curr := ?o\<rparr>, Remember evt '' 00'' (if Hurts b then BackOnTrack b else b))"
    if tile: "states f ! 0 ! 0 = CHR '' ''"
  proof -
    have before: "beforeCallback ?e f b = Inr (?e, f, b)"
      using tile by (simp add: beforeCallback_def)
    have "fmt_d 0 = ''0''" by code_simp
    then have uniq: "UniqueDst \<lparr>Event = evt, Dst = CHR '' '', dstC = ?o, Cancelled = False\<rparr>
        = '' 00''"
      by (simp add: UniqueDst_def fmt_c_def)
    have enter: "enterCallback ?e (f\<lparr>curr := ?o\<rparr>) b =
        Inr (?e, f\<lparr>curr := ?o\<rparr>, Remember evt '' 00'' (if Hurts b then BackOnTrack b else b))"
      using tile by (simp add: enterCallback_def uniq)
    have "\<not> Cancelled ?e" by simp
    with before have "Event_callbacks beforeCallback enterCallback ?o ?e f b =
        (case enterCallback ?e (f\<lparr>curr := ?o\<rparr>) b of
           Inl p \<Rightarrow> Inl p
         | Inr (e2, f2, args2) \<Rightarrow> Inr (None, f2, args2))"
      by (rule Event_callbacks_entered)
    then show ?thesis by (simp add: run enter)
  qed
  from dst inb no_err panics cancelled entered wall free show ?thesis by blast
qed

text \<open>
  On the maze of the test case \<open>nominal\<close> the event \<open>''UP''\<close> is taken for a move into
  the wall at \<open>(0, 0)\<close>: the policy records a hit and goes on to its second priority. On
  the one-row grid \<open>'' @''\<close>, whose corner is free, the same event moves the agent from
  \<open>(1, 0)\<close> to \<open>(0, 0)\<close> and is recorded in the path.
\<close>

lemma NewFSM_free_corner:
  "NewFSM ['' @''] = \<lparr>states = ['' @''], curr = \<lparr>x = 1, y = 0\<rparr>, teleports = []\<rparr>"
  by (simp add: NewFSM_def)

theorem FSM_Event_unknown_direction_witness:
  "''UP'' \<notin> {SOUTH, NORTH, EAST, WEST}
   \<and> states (NewFSM plan_nominal) \<noteq> [] \<and> states (NewFSM plan_nominal) ! 0 \<noteq> []
   \<and> states (NewFSM plan_nominal) ! 0 ! 0 = CHR ''#''
   \<and> Event_dst (NewFSM plan_nominal) ''UP'' = \<lparr>x = 0, y = 0\<rparr>
   \<and> FSM_Event beforeCallback enterCallback (NewFSM plan_nominal) ''UP'' (NewBenderSimulator 6)
      = Inr (None, NewFSM plan_nominal, NextDirection (Boom (NewBenderSimulator 6)))
   \<and> Hurts (NextDirection (Boom (NewBenderSimulator 6)))
   \<and> Direction (NextDirection (Boom (NewBenderSimulator 6))) = Inr EAST
   \<and> states (NewFSM ['' @'']) \<noteq> [] \<and> states (NewFSM ['' @'']) ! 0 \<noteq> []
   \<and> states (NewFSM ['' @'']) ! 0 ! 0 = CHR '' ''
   \<and> curr (NewFSM ['' @'']) = \<lparr>x = 1, y = 0\<rparr>
   \<and> beforeCallback \<lparr>Event = ''UP'', Dst = CHR '' '', dstC = \<lparr>x = 0, y = 0\<rparr>, Cancelled = False\<rparr>
        (NewFSM ['' @'']) (NewBenderSimulator 0)
      = Inr (\<lparr>Event = ''UP'', Dst = CHR '' '', dstC = \<lparr>x = 0, y = 0\<rparr>, Cancelled = False\<rparr>,
             NewFSM ['' @''], NewBenderSimulator 0)
   \<and> FSM_Event beforeCallback (\<lambda>e f a. Inr (e, f, a)) (NewFSM ['' @'']) ''UP''
        (NewBenderSimulator 0)
      = Inr (None, (NewFSM ['' @''])\<lparr>curr := \<lparr>x = 0, y = 0\<rparr>\<rparr>, NewBenderSimulator 0)
   \<and> FSM_Event beforeCallback enterCallback (NewFSM ['' @'']) ''UP'' (NewBenderSimulator 0)
      = Inr (None, (NewFSM ['' @''])\<lparr>curr := \<lparr>x = 0, y = 0\<rparr>\<rparr>,
             Remember ''UP'' '' 00'' (NewBenderSimulator 0))
   \<and> path (Remember ''UP'' '' 00'' (NewBenderSimulator 0)) = [''UP'']"
proof -
  let ?f = "NewFSM plan_nominal"
  let ?b = "NewBenderSimulator 6"
  let ?g = "NewFSM ['' @'']"
  let ?c = "NewBenderSimulator 0"
  let ?o = "\<lparr>x = 0, y = 0\<rparr>"
  let ?e = "\<lparr>Event = ''UP'', Dst = CHR '' '', dstC = ?o, Cancelled = False\<rparr>"
  have other: "''UP'' \<notin> {SOUTH, NORTH, EAST, WEST}" by (simp add: direction_defs)
  have rows: "states ?f \<noteq> []" and cols: "states ?f ! 0 \<noteq> []"
    and wall: "states ?f ! 0 ! 0 = CHR ''#''"
    by (simp_all add: NewFSM_plan_nominal)
  have pol: "Hurts (NextDirection (Boom ?b))" "Direction (NextDirection (Boom ?b)) = Inr EAST"
    by (simp_all add: NewBenderSimulator_def Boom_def NextDirection_def Hurts_def Direction_def)
  note inst = FSM_Event_unknown_direction [OF other rows cols, of beforeCallback enterCallback ?b ?b]
  from inst have dst: "Event_dst ?f ''UP'' = ?o" by blast
  from inst wall have run: "FSM_Event beforeCallback enterCallback ?f ''UP'' ?b
      = Inr (None, ?f, NextDirection (Boom ?b))" by blast
  have rows': "states ?g \<noteq> []" and cols': "states ?g ! 0 \<noteq> []"
    and tile: "states ?g ! 0 ! 0 = CHR '' ''" and pos: "curr ?g = \<lparr>x = 1, y = 0\<rparr>"
    by (simp_all add: NewFSM_free_corner)
  have calm: "\<not> Hurts ?c" by (simp add: Hurts_def NewBenderSimulator_def)
  have before: "beforeCallback ?e ?g ?c = Inr (?e, ?g, ?c)"
    by (simp add: beforeCallback_def)
  have before': "beforeCallback \<lparr>Event = ''UP'', Dst = states ?g ! 0 ! 0, dstC = ?o,
      Cancelled = False\<rparr> ?g ?c = Inr (?e, ?g, ?c) \<and> \<not> Cancelled ?e"
    by (simp add: tile before)
  note free = FSM_Event_unknown_direction [OF other rows' cols', of beforeCallback _ ?c ?c]
  from free [of enterCallback] tile calm
  have moved: "FSM_Event beforeCallback enterCallback ?g ''UP'' ?c
      = Inr (None, ?g\<lparr>curr := ?o\<rparr>, Remember ''UP'' '' 00'' ?c)"
    by simp
  from free [of "\<lambda>e f a. Inr (e, f, a)"] before'
  have "FSM_Event beforeCallback (\<lambda>e f a. Inr (e, f, a)) ?g ''UP'' ?c =
      (case Inr (?e, ?g\<lparr>curr := ?o\<rparr>, ?c) of
         Inl p \<Rightarrow> Inl p
       | Inr (e2, f2, args2) \<Rightarrow> Inr (None, f2, args2))"
    by blast
  then have idle: "FSM_Event beforeCallback (\<lambda>e f a. Inr (e, f, a)) ?g ''UP'' ?c
      = Inr (None, ?g\<lparr>curr := ?o\<rparr>, ?c)"
    by simp
  have recorded: "path (Remember ''UP'' '' 00'' ?c) = [''UP'']"
    by (simp add: Remember_def NewBenderSimulator_def)
  from other rows cols wall dst run pol rows' cols' tile pos before idle moved recorded
  show ?thesis by blast
qed

subsection \<open>Teleports\<close>

text \<open>
  C7. With exactly two teleport coordinates, \<^verbatim>\<open>TeleportDst\<close> sends each of the two to the
  other; with any other number of them it panics (\<open>teleports badly setup\<close>), whatever
  coordinate it is asked for.
\<close>

theorem TeleportDst_symmetric:
  "(length (teleports f) = 2 \<longrightarrow>
      TeleportDst f (teleports f ! 0) = Inr (teleports f ! 1)
      \<and> TeleportDst f (teleports f ! 1) = Inr (teleports f ! 0))
   \<and> (length (teleports f) \<noteq> 2 \<longrightarrow> TeleportDst f ps = Inl TeleportsBadlySetup)"
proof -
  have "TeleportDst f (teleports f ! 1) = Inr (teleports f ! 0)" if "length (teleports f) = 2"
  proof (cases "x (teleports f ! 0) = x (teleports f ! 1) \<and> y (teleports f ! 0) = y (teleports f ! 1)")
    case True
    then have "teleports f ! 1 = teleports f ! 0" by simp
    with that True show ?thesis by (simp add: TeleportDst_def)
  next
    case False
    with that show ?thesis by (auto simp: TeleportDst_def)
  qed
  then show ?thesis by (simp add: TeleportDst_def)
qed



lemma NewFSM_two_teleports:
  "NewFSM [''#####'', ''#T@T#'', ''#####''] =
     \<lparr>states = [''#####'', ''#T@T#'', ''#####''], curr = \<lparr>x = 2, y = 1\<rparr>,
      teleports = [\<lparr>x = 1, y = 1\<rparr>, \<lparr>x = 3, y = 1\<rparr>]\<rparr>"
  by (simp add: NewFSM_def)

lemma NewFSM_lone_teleport:
  "NewFSM [''####'', ''#T@#'', ''####''] =
     \<lparr>states = [''####'', ''#T@#'', ''####''], curr = \<lparr>x = 2, y = 1\<rparr>,
      teleports = [\<lparr>x = 1, y = 1\<rparr>]\<rparr>"
  by (simp add: NewFSM_def)

theorem TeleportDst_symmetric_witness:
  "length (teleports (NewFSM [''#####'', ''#T@T#'', ''#####''])) = 2
   \<and> TeleportDst (NewFSM [''#####'', ''#T@T#'', ''#####'']) \<lparr>x = 1, y = 1\<rparr> = Inr \<lparr>x = 3, y = 1\<rparr>
   \<and> TeleportDst (NewFSM [''#####'', ''#T@T#'', ''#####'']) \<lparr>x = 3, y = 1\<rparr> = Inr \<lparr>x = 1, y = 1\<rparr>
   \<and> length (teleports (NewFSM [''####'', ''#T@#'', ''####''])) = 1
   \<and> TeleportDst (NewFSM [''####'', ''#T@#'', ''####'']) \<lparr>x = 1, y = 1\<rparr> = Inl TeleportsBadlySetup"
proof -
  let ?f = "NewFSM [''#####'', ''#T@T#'', ''#####'']"
  let ?g = "NewFSM [''####'', ''#T@#'', ''####'']"
  have two: "length (teleports ?f) = 2"
    and tps: "teleports ?f ! 0 = \<lparr>x = 1, y = 1\<rparr>" "teleports ?f ! 1 = \<lparr>x = 3, y = 1\<rparr>"
    by (simp_all add: NewFSM_two_teleports)
  have one: "length (teleports ?g) = 1" by (simp add: NewFSM_lone_teleport)
  from TeleportDst_symmetric [of ?f] two
  have "TeleportDst ?f (teleports ?f ! 0) = Inr (teleports ?f ! 1)"
    and "TeleportDst ?f (teleports ?f ! 1) = Inr (teleports ?f ! 0)"
    by blast+
  then have pair: "TeleportDst ?f \<lparr>x = 1, y = 1\<rparr> = Inr \<lparr>x = 3, y = 1\<rparr>"
    "TeleportDst ?f \<lparr>x = 3, y = 1\<rparr> = Inr \<lparr>x = 1, y = 1\<rparr>"
    by (simp_all only: tps)
  from TeleportDst_symmetric [of ?g "\<lparr>x = 1, y = 1\<rparr>"] one
  have lone: "TeleportDst ?g \<lparr>x = 1, y = 1\<rparr> = Inl TeleportsBadlySetup" by simp
  from two pair one lone show ?thesis by blast
qed

end
